theory Spec2Isabelle
  imports Main "HOL-Library.Char_ord" "HOL-Library.List_Lexorder"
begin

section \<open>Strings\<close>

text \<open>
  Python strings are modelled as \<open>string\<close> (lists of 8-bit characters). The source
  uses \<^verbatim>\<open>str.lower\<close>, \<^verbatim>\<open>str.strip\<close>, \<^verbatim>\<open>str.startswith\<close>, the substring test
  \<^verbatim>\<open>a in b\<close> and the decimal rendering of a counter inside an f-string. Case folding
  and white space are those of ASCII.
\<close>

definition lower_char :: "char \<Rightarrow> char" where
  "lower_char c =
     (if 65 \<le> (of_char c :: nat) \<and> (of_char c :: nat) \<le> 90
      then char_of ((of_char c :: nat) + 32) else c)"

definition str_lower :: "string \<Rightarrow> string" where
  "str_lower s = map lower_char s"

definition is_space :: "char \<Rightarrow> bool" where
  "is_space c = ((of_char c :: nat) = 32 \<or> (9 \<le> (of_char c :: nat) \<and> (of_char c :: nat) \<le> 13))"

definition strip :: "string \<Rightarrow> string" where
  "strip s = rev (dropWhile is_space (rev (dropWhile is_space s)))"

definition startswith :: "string \<Rightarrow> string \<Rightarrow> bool" where
  "startswith s pre = (take (length pre) s = pre)"

text \<open>\<^verbatim>\<open>sub in s\<close>: some position of \<open>s\<close> starts with \<open>sub\<close>.\<close>

fun str_in :: "string \<Rightarrow> string \<Rightarrow> bool" where
  "str_in sub [] = (sub = [])"
| "str_in sub (c # cs) = (take (length sub) (c # cs) = sub \<or> str_in sub cs)"

definition digit_char :: "nat \<Rightarrow> char" where
  "digit_char d = char_of (48 + d)"

text \<open>\<^verbatim>\<open>str(n)\<close> for a non-negative counter: its decimal digits.\<close>

fun str_nat :: "nat \<Rightarrow> string" where
  "str_nat n = (if n < 10 then [digit_char n] else str_nat (n div 10) @ [digit_char (n mod 10)])"

declare str_nat.simps [simp del]

section \<open>Paths\<close>

text \<open>
  A \<^verbatim>\<open>pathlib.Path\<close> of the viewer is absolute (\<^verbatim>\<open>load_directory\<close> resolves the
  directory and every other path is built from it), so a path is the list of its
  components below the root; the root itself is \<open>[]\<close>. \<^verbatim>\<open>Path.__lt__\<close> compares the
  component lists, which is the lexicographic order of \<open>string list\<close>.
\<close>

type_synonym path = "string list"

definition path_name :: "path \<Rightarrow> string" where
  "path_name p = (if p = [] then [] else last p)"

definition path_parent :: "path \<Rightarrow> path" where
  "path_parent p = butlast p"

text \<open>
  \<^verbatim>\<open>PurePath.suffix\<close> and \<^verbatim>\<open>PurePath.stem\<close> (Python 3.8 to 3.13): with \<open>i\<close> the position
  of the last dot of the name, the suffix is \<open>name[i:]\<close> when \<open>0 < i < len(name) - 1\<close>
  and empty otherwise; the stem is the rest of the name.
\<close>

definition name_ext :: "string \<Rightarrow> string" where
  "name_ext nm = rev (takeWhile (\<lambda>c. c \<noteq> CHR ''.'') (rev nm))"

definition has_suffix :: "string \<Rightarrow> bool" where
  "has_suffix nm = (CHR ''.'' \<in> set nm \<and> name_ext nm \<noteq> [] \<and> length (name_ext nm) + 1 < length nm)"

definition name_suffix :: "string \<Rightarrow> string" where
  "name_suffix nm = (if has_suffix nm then CHR ''.'' # name_ext nm else [])"

definition name_stem :: "string \<Rightarrow> string" where
  "name_stem nm = (if has_suffix nm then take (length nm - length (name_ext nm) - 1) nm else nm)"

definition path_suffix :: "path \<Rightarrow> string" where
  "path_suffix p = name_suffix (path_name p)"

definition path_stem :: "path \<Rightarrow> string" where
  "path_stem p = name_stem (path_name p)"

text \<open>
  \<^verbatim>\<open>Path(text)\<close> and \<^verbatim>\<open>dir / text\<close>: the text is cut at the slashes, empty components
  and \<^verbatim>\<open>.\<close> are dropped, and an absolute text replaces the left operand.
\<close>

fun split_slash :: "string \<Rightarrow> string list" where
  "split_slash [] = [[]]"
| "split_slash (c # cs) =
     (if c = CHR ''/'' then [] # split_slash cs
      else (case split_slash cs of [] \<Rightarrow> [[c]] | x # xs \<Rightarrow> (c # x) # xs))"

definition path_parts :: "string \<Rightarrow> path" where
  "path_parts s = filter (\<lambda>x. x \<noteq> [] \<and> x \<noteq> ''.'') (split_slash s)"

definition joinpath :: "path \<Rightarrow> string \<Rightarrow> path" where
  "joinpath p s = (if startswith s ''/'' then path_parts s else p @ path_parts s)"

section \<open>The file system\<close>

text \<open>
  The operating system's side of \<^verbatim>\<open>pathlib\<close>, \<^verbatim>\<open>os\<close> and \<^verbatim>\<open>shutil\<close>, on one device and
  without symbolic links: a finite table from paths to nodes. A file carries its
  contents (a number standing for the bytes) and whether \<^verbatim>\<open>QImageReader\<close> decodes them.
  The root always exists. Two tables denote the same layout when \<open>lookup\<close> agrees.
\<close>

datatype node = File nat bool | Dir

type_synonym filesystem = "(path \<times> node) list"

datatype py_error =
    IndexError | AttributeError | TypeError
  | FileNotFoundError | FileExistsError | NotADirectoryError | IsADirectoryError
  | OSError | ShutilError

definition lookup :: "filesystem \<Rightarrow> path \<Rightarrow> node option" where
  "lookup fs p = (if p = [] then Some Dir else map_of fs p)"

definition path_exists :: "filesystem \<Rightarrow> path \<Rightarrow> bool" where
  "path_exists fs p = (lookup fs p \<noteq> None)"

definition is_dir :: "filesystem \<Rightarrow> path \<Rightarrow> bool" where
  "is_dir fs p = (lookup fs p = Some Dir)"

text \<open>\<^verbatim>\<open>Path.iterdir\<close>: each entry directly inside \<open>d\<close>, once, of whatever kind.\<close>

definition iterdir :: "filesystem \<Rightarrow> path \<Rightarrow> path list" where
  "iterdir fs d = filter (\<lambda>p. p \<noteq> [] \<and> butlast p = d) (remdups (map fst fs))"

text \<open>A table is a tree when every entry lies inside a directory.\<close>

definition wf_fs :: "filesystem \<Rightarrow> bool" where
  "wf_fs fs = list_all (\<lambda>e. fst e \<noteq> [] \<and> is_dir fs (butlast (fst e))) fs"

definition fs_remove :: "filesystem \<Rightarrow> path \<Rightarrow> filesystem" where
  "fs_remove fs p = filter (\<lambda>e. fst e \<noteq> p) fs"

definition under :: "path \<Rightarrow> path \<Rightarrow> bool" where
  "under d p = (take (length d) p = d)"

definition move_tree :: "filesystem \<Rightarrow> path \<Rightarrow> path \<Rightarrow> filesystem" where
  "move_tree fs src dst =
     map (\<lambda>e. if under src (fst e) then (dst @ drop (length src) (fst e), snd e) else e)
       (fs_remove fs dst)"

text \<open>
  \<^verbatim>\<open>os.rename\<close> (POSIX \<^verbatim>\<open>rename(2)\<close>): the source must exist and the destination's parent
  must be a directory; an existing destination file is replaced by a file, an empty
  directory by a directory; a directory moves with everything below it.
\<close>

definition os_rename :: "filesystem \<Rightarrow> path \<Rightarrow> path \<Rightarrow> py_error + filesystem" where
  "os_rename fs src dst =
     (case lookup fs src of
        None \<Rightarrow> Inl FileNotFoundError
      | Some n \<Rightarrow>
          if src = [] \<or> dst = [] then Inl OSError
          else if \<not> path_exists fs (path_parent dst) then Inl FileNotFoundError
          else if \<not> is_dir fs (path_parent dst) then Inl NotADirectoryError
          else if src = dst then Inr fs
          else (case n of
              File c d \<Rightarrow>
                (if is_dir fs dst then Inl IsADirectoryError
                 else Inr ((dst, File c d) # fs_remove (fs_remove fs src) dst))
            | Dir \<Rightarrow>
                (if under src dst then Inl OSError
                 else (case lookup fs dst of
                     None \<Rightarrow> Inr (move_tree fs src dst)
                   | Some (File c d) \<Rightarrow> Inl NotADirectoryError
                   | Some Dir \<Rightarrow>
                       if iterdir fs dst \<noteq> [] then Inl OSError
                       else Inr (move_tree fs src dst)))))"

text \<open>
  \<^verbatim>\<open>shutil.move(src, dst)\<close>: into \<open>dst\<close> when that is a directory (refusing to replace
  an entry there), otherwise a rename onto \<open>dst\<close>. On one device the copying fallback
  fails exactly when the rename did.
\<close>

definition shutil_move :: "filesystem \<Rightarrow> path \<Rightarrow> path \<Rightarrow> py_error + filesystem" where
  "shutil_move fs src dst =
     (if is_dir fs dst then
        (if src = dst then os_rename fs src dst
         else if path_exists fs (dst @ [path_name src]) then Inl ShutilError
         else os_rename fs src (dst @ [path_name src]))
      else os_rename fs src dst)"

text \<open>
  \<^verbatim>\<open>os.mkdir\<close>: the walk to the parent fails first, an existing entry second.
\<close>

definition os_mkdir :: "filesystem \<Rightarrow> path \<Rightarrow> py_error + filesystem" where
  "os_mkdir fs p =
     (if \<not> path_exists fs (path_parent p) then Inl FileNotFoundError
      else if \<not> is_dir fs (path_parent p) then Inl NotADirectoryError
      else if path_exists fs p then Inl FileExistsError
      else Inr ((p, Dir) # fs))"

text \<open>\<^verbatim>\<open>Path.mkdir(exist_ok=True)\<close>: an existing directory is not an error.\<close>

definition mkdir_exist_ok :: "filesystem \<Rightarrow> path \<Rightarrow> py_error + filesystem" where
  "mkdir_exist_ok fs p =
     (case os_mkdir fs p of
        Inr fs' \<Rightarrow> Inr fs'
      | Inl e \<Rightarrow> if e = FileNotFoundError then Inl e
                 else if is_dir fs p then Inr fs else Inl e)"

text \<open>
  \<^verbatim>\<open>Path.mkdir(parents=True, exist_ok=True)\<close>: on a missing parent, the parent is made
  first (recursively) and the directory after it. The recursion runs over the reversed
  component list, whose tail is the parent.
\<close>

fun mkdir_parents_rev :: "filesystem \<Rightarrow> string list \<Rightarrow> py_error + filesystem" where
  "mkdir_parents_rev fs [] = Inr fs"
| "mkdir_parents_rev fs (c # rp) =
     (case os_mkdir fs (rev (c # rp)) of
        Inr fs' \<Rightarrow> Inr fs'
      | Inl e \<Rightarrow>
          if e = FileNotFoundError then
            (case mkdir_parents_rev fs rp of
               Inl e' \<Rightarrow> Inl e'
             | Inr fs1 \<Rightarrow> mkdir_exist_ok fs1 (rev (c # rp)))
          else if is_dir fs (rev (c # rp)) then Inr fs else Inl e)"

definition mkdir_parents :: "filesystem \<Rightarrow> path \<Rightarrow> py_error + filesystem" where
  "mkdir_parents fs p = mkdir_parents_rev fs (rev p)"

section \<open>Python lists\<close>

text \<open>
  Indexing as Python does it: an index \<open>i\<close> with \<open>-len \<le> i < len\<close> is valid, a negative
  one counting from the end; any other index raises \<^verbatim>\<open>IndexError\<close> in a read, a write
  and a \<^verbatim>\<open>pop\<close>, while \<^verbatim>\<open>insert\<close> clamps it into the list.
\<close>

definition py_norm :: "'a list \<Rightarrow> int \<Rightarrow> nat option" where
  "py_norm xs i =
     (let n = int (length xs); j = (if i < 0 then i + n else i)
      in if 0 \<le> j \<and> j < n then Some (nat j) else None)"

definition py_get :: "'a list \<Rightarrow> int \<Rightarrow> py_error + 'a" where
  "py_get xs i = (case py_norm xs i of None \<Rightarrow> Inl IndexError | Some j \<Rightarrow> Inr (xs ! j))"

definition py_set :: "'a list \<Rightarrow> int \<Rightarrow> 'a \<Rightarrow> py_error + 'a list" where
  "py_set xs i v = (case py_norm xs i of None \<Rightarrow> Inl IndexError | Some j \<Rightarrow> Inr (xs[j := v]))"

definition py_pop :: "'a list \<Rightarrow> int \<Rightarrow> py_error + ('a \<times> 'a list)" where
  "py_pop xs i =
     (case py_norm xs i of
        None \<Rightarrow> Inl IndexError
      | Some j \<Rightarrow> Inr (xs ! j, take j xs @ drop (Suc j) xs))"

definition py_insert :: "'a list \<Rightarrow> int \<Rightarrow> 'a \<Rightarrow> 'a list" where
  "py_insert xs i v =
     (let n = int (length xs); j = (if i < 0 then max 0 (i + n) else min i n)
      in take (nat j) xs @ v # drop (nat j) xs)"

text \<open>\<^verbatim>\<open>list.index(x)\<close>, which the source only calls under the guard \<^verbatim>\<open>x in list\<close>.\<close>

definition py_index :: "'a list \<Rightarrow> 'a \<Rightarrow> nat" where
  "py_index xs x = length (takeWhile (\<lambda>y. y \<noteq> x) xs)"

section \<open>The viewer\<close>

text \<open>
  The fields of \<^verbatim>\<open>ImageViewerWidget\<close> that the catalogue, the search filter, the file
  operations and the undo history read or write, together with the file system they
  act on and the messages they emit (the notification overlay and \<^verbatim>\<open>print\<close>). The
  filmstrip widget holds one row per entry of \<open>image_files\<close> throughout and is not a
  field of its own; \<open>filmstrip_item_map\<close> is the key set of the dictionary of that
  name. Zoom, rotation, fonts and timers play no part. The thumbnail thread itself is
  outside the model: only its signal handler \<^verbatim>\<open>_apply_thumbnail\<close> is.
\<close>

datatype ViewerMode = NORMAL | CONFIRM | QUICK_MOVE | RENAME | SEARCH

text \<open>
  An entry of \<^verbatim>\<open>undo_stack\<close>: the dictionary's \<^verbatim>\<open>action\<close> tag with \<^verbatim>\<open>old_path\<close>, then
  \<^verbatim>\<open>new_path\<close> (for a deletion \<^verbatim>\<open>trash_path\<close>), then \<^verbatim>\<open>index\<close>.
\<close>

datatype undo_entry =
    Rename_inplace path path int
  | Move path path int
  | Delete path path int

datatype report = Overlay string | Printed string py_error

record viewer =
  fsys :: filesystem
  directory :: "path option"
  all_image_files :: "path list"
  image_files :: "path list"
  thumb_cache :: "path \<rightharpoonup> nat"
  filmstrip_item_map :: "path set"
  current_index :: int
  undo_stack :: "undo_entry list"
  mode :: ViewerMode
  is_search_filtered :: bool
  pre_search_path :: "path option"
  trash_dir :: "path option"
  reports :: "report list"

text \<open>
  A handler either returns or lets an exception escape to its caller; either way the
  widget lives on in the state the handler left.
\<close>

datatype outcome = Done viewer | Raised py_error viewer

fun state_of :: "outcome \<Rightarrow> viewer" where
  "state_of (Done s) = s"
| "state_of (Raised e s) = s"

definition show_animated_overlay :: "string \<Rightarrow> viewer \<Rightarrow> viewer" where
  "show_animated_overlay msg s = s\<lparr>reports := reports s @ [Overlay msg]\<rparr>"

definition print_failure :: "string \<Rightarrow> py_error \<Rightarrow> viewer \<Rightarrow> viewer" where
  "print_failure msg e s = s\<lparr>reports := reports s @ [Printed msg e]\<rparr>"

text \<open>\<^verbatim>\<open>__init__\<close>: the widget before any directory is loaded.\<close>

definition init_viewer :: "filesystem \<Rightarrow> viewer" where
  "init_viewer fs =
     \<lparr>fsys = fs, directory = None, all_image_files = [], image_files = [],
      thumb_cache = Map.empty, filmstrip_item_map = {}, current_index = 0,
      undo_stack = [], mode = NORMAL, is_search_filtered = False,
      pre_search_path = None, trash_dir = None, reports = []\<rparr>"

subsection \<open>Display\<close>

text \<open>
  \<^verbatim>\<open>_update_image\<close>: on an empty view it returns before touching the cursor; otherwise
  it clamps the cursor into the view.
\<close>

definition update_image :: "viewer \<Rightarrow> viewer" where
  "update_image s =
     (if image_files s = [] then s
      else s\<lparr>current_index :=
               max 0 (min (current_index s) (int (length (image_files s)) - 1))\<rparr>)"

text \<open>
  \<^verbatim>\<open>_rebuild_filmstrip_and_thumbnails\<close>: one fresh filmstrip item per entry of the view,
  then \<^verbatim>\<open>_update_image\<close>.
\<close>

definition rebuild_filmstrip_and_thumbnails :: "viewer \<Rightarrow> viewer" where
  "rebuild_filmstrip_and_thumbnails s =
     update_image (s\<lparr>filmstrip_item_map := set (image_files s)\<rparr>)"

text \<open>\<^verbatim>\<open>_apply_thumbnail\<close>, the handler of the worker's \<^verbatim>\<open>icon_ready\<close> signal.\<close>

definition apply_thumbnail :: "path \<Rightarrow> nat \<Rightarrow> viewer \<Rightarrow> viewer" where
  "apply_thumbnail p pixmap s =
     (if p \<in> filmstrip_item_map s then s\<lparr>thumb_cache := (thumb_cache s)(p \<mapsto> pixmap)\<rparr>
      else s)"


subsection \<open>Loading a directory\<close>

definition exts :: "string list" where
  "exts = [''.png'', ''.jpg'', ''.jpeg'', ''.bmp'', ''.gif'', ''.webp'']"

definition is_image_entry :: "path \<Rightarrow> bool" where
  "is_image_entry p =
     (str_lower (path_suffix p) \<in> set exts \<and> \<not> startswith (path_name p) ''.'')"

definition get_images :: "viewer \<Rightarrow> path list" where
  "get_images s =
     (case directory s of
        None \<Rightarrow> []
      | Some d \<Rightarrow>
          if \<not> is_dir (fsys s) d then []
          else sort (filter is_image_entry (iterdir (fsys s) d)))"

text \<open>
  \<^verbatim>\<open>load_directory\<close>. \<^verbatim>\<open>Path.resolve\<close> is the identity on the paths of this model. The
  undo stack, the thumbnail cache and the search flags are reset first; the trash
  directory is then made with \<^verbatim>\<open>mkdir(exist_ok=True)\<close>, whose error no handler catches;
  only then is the directory scanned and the cursor clamped to the requested index.
\<close>

definition load_directory :: "viewer \<Rightarrow> path \<Rightarrow> int \<Rightarrow> outcome" where
  "load_directory s dir initial_index =
     (let trash = dir @ [''.vimview_trash''];
          s1 = s\<lparr>directory := Some dir, undo_stack := [], thumb_cache := Map.empty,
                 is_search_filtered := False, pre_search_path := None,
                 trash_dir := Some trash\<rparr>
      in case mkdir_exist_ok (fsys s1) trash of
           Inl e \<Rightarrow> Raised e s1
         | Inr fs' \<Rightarrow>
             (let s2 = s1\<lparr>fsys := fs'\<rparr>;
                  imgs = get_images s2;
                  s3 = s2\<lparr>all_image_files := imgs, image_files := imgs,
                         current_index :=
                           (if imgs \<noteq> [] then max 0 (min initial_index (int (length imgs) - 1))
                            else 0),
                         mode := NORMAL\<rparr>
              in Done (rebuild_filmstrip_and_thumbnails s3)))"

subsection \<open>Navigation\<close>

text \<open>
  The bodies of the \<^verbatim>\<open>prev\<close> and \<^verbatim>\<open>next\<close> branches of \<^verbatim>\<open>keyPressEvent\<close> (its guard on an
  empty view is in \<open>step\<close> below), and the filmstrip's \<^verbatim>\<open>currentRowChanged\<close> handler.
\<close>

definition key_prev :: "viewer \<Rightarrow> viewer" where
  "key_prev s = update_image (s\<lparr>current_index := max 0 (current_index s - 1)\<rparr>)"

definition key_next :: "viewer \<Rightarrow> viewer" where
  "key_next s =
     update_image
       (s\<lparr>current_index := min (int (length (image_files s)) - 1) (current_index s + 1)\<rparr>)"

definition on_filmstrip_selected :: "int \<Rightarrow> viewer \<Rightarrow> viewer" where
  "on_filmstrip_selected i s =
     (if 0 \<le> i then update_image (s\<lparr>current_index := i\<rparr>) else s)"

subsection \<open>Search and filter\<close>

definition jump_to_image :: "path \<Rightarrow> viewer \<Rightarrow> viewer" where
  "jump_to_image target s =
     (let s1 = (if is_search_filtered s
                then rebuild_filmstrip_and_thumbnails
                       (s\<lparr>image_files := all_image_files s, is_search_filtered := False\<rparr>)
                else s)
      in if target \<in> set (image_files s1)
         then show_animated_overlay (''jumped to:'' @ [CHR 0x0A] @ path_name target)
                (update_image (s1\<lparr>current_index := int (py_index (image_files s1) target)\<rparr>))
         else s1)"

definition clear_search_filter :: "bool \<Rightarrow> viewer \<Rightarrow> viewer" where
  "clear_search_filter show_msg s =
     (if \<not> is_search_filtered s then s
      else
        (let s1 = s\<lparr>image_files := all_image_files s, is_search_filtered := False\<rparr>;
             s2 = (case pre_search_path s1 of
                     None \<Rightarrow> s1\<lparr>current_index := 0\<rparr>
                   | Some p \<Rightarrow>
                       if p \<in> set (image_files s1)
                       then s1\<lparr>current_index := int (py_index (image_files s1) p),
                               pre_search_path := None\<rparr>
                       else s1\<lparr>current_index := 0\<rparr>);
             s3 = rebuild_filmstrip_and_thumbnails s2
         in if show_msg
            then show_animated_overlay
                   (''search cleared'' @ [CHR 0x0A] @ ''returned to gallery'') s3
            else s3))"

text \<open>
  \<^verbatim>\<open>_open_text_input\<close>. Opening the rename box reads the current image's stem; opening
  the search box records the current image as the pre-search path unless a filter is
  already on or the view is empty.
\<close>

definition open_text_input :: "ViewerMode \<Rightarrow> viewer \<Rightarrow> outcome" where
  "open_text_input m s =
     (let s1 = s\<lparr>mode := m\<rparr>
      in if m = RENAME then
           (case py_get (image_files s1) (current_index s1) of
              Inl e \<Rightarrow> Raised e s1
            | Inr p \<Rightarrow> Done s1)
         else if m = SEARCH then
           (if \<not> is_search_filtered s1 \<and> image_files s1 \<noteq> [] then
              (case py_get (image_files s1) (current_index s1) of
                 Inl e \<Rightarrow> Raised e s1
               | Inr p \<Rightarrow> Done (s1\<lparr>pre_search_path := Some p\<rparr>))
            else Done s1)
         else Done s1)"

text \<open>
  The Escape branch of \<^verbatim>\<open>keyPressEvent\<close> while the input box is visible, and
  \<^verbatim>\<open>_escape_or_back\<close> (Escape or Space otherwise), which reports whether it acted.
\<close>

definition key_escape_input :: "viewer \<Rightarrow> viewer" where
  "key_escape_input s = s\<lparr>mode := NORMAL, pre_search_path := None\<rparr>"

definition escape_or_back :: "viewer \<Rightarrow> bool \<times> viewer" where
  "escape_or_back s =
     (if is_search_filtered s then (True, clear_search_filter True s)
      else (case pre_search_path s of
              None \<Rightarrow> (False, s)
            | Some p \<Rightarrow>
                (True,
                 show_animated_overlay ''returned to previous image''
                   (update_image
                      (s\<lparr>current_index :=
                            (if p \<in> set (image_files s) then int (py_index (image_files s) p)
                             else 0),
                         pre_search_path := None\<rparr>)))))"

text \<open>
  The search branch of \<^verbatim>\<open>_process_text_input\<close>: a selected suggestion is jumped to, an
  empty query clears the filter, any other query filters the catalogue by file name.
\<close>

definition matches_of :: "string \<Rightarrow> path list \<Rightarrow> path list" where
  "matches_of txt fs = filter (\<lambda>f. str_in (str_lower txt) (str_lower (path_name f))) fs"

definition search_input :: "string \<Rightarrow> path option \<Rightarrow> viewer \<Rightarrow> viewer" where
  "search_input txt selected s =
     (case selected of
        Some sel \<Rightarrow> jump_to_image sel s
      | None \<Rightarrow>
          if txt = [] then clear_search_filter True s
          else
            (let matches = matches_of txt (all_image_files s)
             in if matches = [] then show_animated_overlay ''no matches found'' s
                else show_animated_overlay
                       (''filtered: '' @ str_nat (length matches) @ '' images'')
                       (rebuild_filmstrip_and_thumbnails
                          (s\<lparr>image_files := matches, is_search_filtered := True,
                             current_index := 0\<rparr>))))"

subsection \<open>File operations\<close>

text \<open>
  \<^verbatim>\<open>_rename_current_file\<close>. The read of the current image stands before the
  \<^verbatim>\<open>try\<close>, so its \<^verbatim>\<open>IndexError\<close> escapes; everything after the existence test is inside
  the \<^verbatim>\<open>try\<close>, whose handler prints and returns. \<^verbatim>\<open>QListWidget.item\<close> answers a
  negative row with \<^verbatim>\<open>None\<close>, on which \<^verbatim>\<open>setData\<close> raises.
\<close>

text \<open>
  The two list and dictionary updates that renaming and its undo share:
  \<^verbatim>\<open>if a in xs: xs[xs.index(a)] = b\<close> and \<^verbatim>\<open>if a in d: d[b] = d.pop(a)\<close>.
\<close>

definition replace_path :: "path \<Rightarrow> path \<Rightarrow> path list \<Rightarrow> path list" where
  "replace_path a b xs = (if a \<in> set xs then xs[py_index xs a := b] else xs)"

definition rename_key :: "path \<Rightarrow> path \<Rightarrow> (path \<rightharpoonup> nat) \<Rightarrow> (path \<rightharpoonup> nat)" where
  "rename_key a b m = (case m a of None \<Rightarrow> m | Some pm \<Rightarrow> (m(a := None))(b \<mapsto> pm))"

definition rename_target :: "path \<Rightarrow> string \<Rightarrow> path" where
  "rename_target img_path new_name =
     joinpath (path_parent img_path)
       (if name_suffix (path_name (path_parts new_name)) = []
        then new_name @ path_suffix img_path else new_name)"

definition rename_current_file :: "string \<Rightarrow> viewer \<Rightarrow> outcome" where
  "rename_current_file new_name s =
     (case py_get (image_files s) (current_index s) of
        Inl e \<Rightarrow> Raised e s
      | Inr img_path \<Rightarrow>
          (let new_path = rename_target img_path new_name
           in if path_exists (fsys s) new_path
              then Done (show_animated_overlay ''error: file exists'' s)
              else
                (case os_rename (fsys s) img_path new_path of
                   Inl e \<Rightarrow> Done (print_failure ''failed to rename'' e s)
                 | Inr fs' \<Rightarrow>
                     (case py_set (image_files s) (current_index s) new_path of
                        Inl e \<Rightarrow> Done (print_failure ''failed to rename'' e (s\<lparr>fsys := fs'\<rparr>))
                      | Inr view' \<Rightarrow>
                          (let s1 = s\<lparr>fsys := fs', image_files := view',
                                      all_image_files :=
                                        replace_path img_path new_path (all_image_files s)\<rparr>
                           in if current_index s < 0
                              then Done (print_failure ''failed to rename'' AttributeError s1)
                              else Done (update_image
                                (s1\<lparr>filmstrip_item_map :=
                                       insert new_path (filmstrip_item_map s - {img_path}),
                                     thumb_cache :=
                                       rename_key img_path new_path (thumb_cache s),
                                     undo_stack :=
                                       undo_stack s @
                                         [Rename_inplace img_path new_path
                                            (current_index s)]\<rparr>)))))))"

text \<open>
  The collision loop of \<^verbatim>\<open>_move_to_target\<close> and \<^verbatim>\<open>_delete_current\<close>: while the candidate
  exists, the next candidate is \<^verbatim>\<open>stem_counter suffix\<close> and the counter goes up.
\<close>

definition candidate :: "path \<Rightarrow> string \<Rightarrow> string \<Rightarrow> nat \<Rightarrow> path" where
  "candidate folder stem suf counter = folder @ [stem @ ''_'' @ str_nat counter @ suf]"

function collision_loop ::
  "filesystem \<Rightarrow> path \<Rightarrow> string \<Rightarrow> string \<Rightarrow> path \<Rightarrow> nat \<Rightarrow> path" where
  "collision_loop fs folder stem suf new_path counter =
     (if path_exists fs new_path
      then collision_loop fs folder stem suf (candidate folder stem suf counter) (counter + 1)
      else new_path)"
  by pat_completeness auto

definition free_path :: "filesystem \<Rightarrow> path \<Rightarrow> path \<Rightarrow> path" where
  "free_path fs folder img_path =
     collision_loop fs folder (path_stem img_path) (path_suffix img_path)
       (folder @ [path_name img_path]) 1"

text \<open>\<^verbatim>\<open>_remove_item_from_view\<close>; its \<^verbatim>\<open>pop\<close> can raise into the caller's \<^verbatim>\<open>try\<close>.\<close>

definition remove_item_from_view :: "int \<Rightarrow> viewer \<Rightarrow> py_error + viewer" where
  "remove_item_from_view i s =
     (case py_pop (image_files s) i of
        Inl e \<Rightarrow> Inl e
      | Inr (img_path, rest) \<Rightarrow>
          Inr (update_image
                 (s\<lparr>image_files := rest,
                    all_image_files := remove1 img_path (all_image_files s),
                    filmstrip_item_map := filmstrip_item_map s - {img_path}\<rparr>)))"

text \<open>
  The common tail of \<^verbatim>\<open>_move_to_target\<close> and \<^verbatim>\<open>_delete_current\<close>: the move, the undo
  entry, the removal from the view; a failure inside the \<^verbatim>\<open>try\<close> is printed.
\<close>

definition move_and_remove ::
  "string \<Rightarrow> (path \<Rightarrow> path \<Rightarrow> int \<Rightarrow> undo_entry) \<Rightarrow> path \<Rightarrow> path \<Rightarrow> viewer \<Rightarrow> viewer" where
  "move_and_remove msg entry img_path new_path s =
     (case shutil_move (fsys s) img_path new_path of
        Inl e \<Rightarrow> print_failure msg e s
      | Inr fs' \<Rightarrow>
          (let s1 = s\<lparr>fsys := fs',
                      undo_stack := undo_stack s @ [entry img_path new_path (current_index s)]\<rparr>
           in case remove_item_from_view (current_index s1) s1 of
                Inl e \<Rightarrow> print_failure msg e s1
              | Inr s2 \<Rightarrow> s2))"

definition move_to_target :: "path \<Rightarrow> viewer \<Rightarrow> outcome" where
  "move_to_target target_folder s =
     (case py_get (image_files s) (current_index s) of
        Inl e \<Rightarrow> Raised e s
      | Inr img_path \<Rightarrow>
          (case mkdir_parents (fsys s) target_folder of
             Inl e \<Rightarrow> Raised e s
           | Inr fs1 \<Rightarrow>
               Done (move_and_remove ''failed to move'' Move img_path
                       (free_path fs1 target_folder img_path) (s\<lparr>fsys := fs1\<rparr>))))"

text \<open>
  \<^verbatim>\<open>_delete_current\<close>. Before a directory is loaded \<^verbatim>\<open>trash_dir\<close> is \<^verbatim>\<open>None\<close> and the
  division by the name raises \<^verbatim>\<open>TypeError\<close>, outside the \<^verbatim>\<open>try\<close>.
\<close>

definition delete_current :: "viewer \<Rightarrow> outcome" where
  "delete_current s =
     (case py_get (image_files s) (current_index s) of
        Inl e \<Rightarrow> Raised e s
      | Inr img_path \<Rightarrow>
          (case trash_dir s of
             None \<Rightarrow> Raised TypeError s
           | Some trash \<Rightarrow>
               Done (move_and_remove ''failed to trash'' Delete img_path
                       (free_path (fsys s) trash img_path) s)))"

text \<open>
  \<^verbatim>\<open>_process_text_input\<close> with confirmations off (the default configuration), so that
  \<^verbatim>\<open>_handle_action_request\<close> runs the rename at once and then shows its message.
\<close>

definition process_text_input :: "string \<Rightarrow> path option \<Rightarrow> viewer \<Rightarrow> outcome" where
  "process_text_input raw selected s =
     (let txt = strip raw; m = mode s; s1 = s\<lparr>mode := NORMAL\<rparr>
      in if m = RENAME \<and> txt \<noteq> [] then
           (case rename_current_file txt s1 of
              Raised e s2 \<Rightarrow> Raised e s2
            | Done s2 \<Rightarrow> Done (show_animated_overlay (''renamed: '' @ txt) s2))
         else if m = SEARCH then Done (search_input txt selected s1)
         else Done s1)"

subsection \<open>Undo\<close>

definition read_image :: "filesystem \<Rightarrow> path \<Rightarrow> nat option" where
  "read_image fs p = (case lookup fs p of Some (File c True) \<Rightarrow> Some c | _ \<Rightarrow> None)"

text \<open>
  The shared part of \<^verbatim>\<open>_undo_last_action\<close> for a move and a deletion: the file goes
  back, the old path is inserted into the view at the recorded index and appended to
  the catalogue when absent from it, a thumbnail is taken from the cache or read, and
  the cursor is set to the recorded index.
\<close>

definition undo_restore :: "path \<Rightarrow> path \<Rightarrow> int \<Rightarrow> viewer \<Rightarrow> viewer" where
  "undo_restore src old i s =
     (case shutil_move (fsys s) src old of
        Inl e \<Rightarrow> print_failure ''undo failed'' e s
      | Inr fs' \<Rightarrow>
          show_animated_overlay ''undo: file restored''
            (update_image
               (s\<lparr>fsys := fs',
                  image_files := py_insert (image_files s) i old,
                  all_image_files :=
                    (if old \<notin> set (all_image_files s) then all_image_files s @ [old]
                     else all_image_files s),
                  filmstrip_item_map := insert old (filmstrip_item_map s),
                  thumb_cache :=
                    (case thumb_cache s old of
                       Some pm \<Rightarrow> thumb_cache s
                     | None \<Rightarrow>
                         (case read_image fs' old of
                            None \<Rightarrow> thumb_cache s
                          | Some pm \<Rightarrow> (thumb_cache s)(old \<mapsto> pm))),
                  current_index := i\<rparr>)))"

text \<open>
  \<^verbatim>\<open>_undo_last_action\<close>. The entry is popped before the \<^verbatim>\<open>try\<close>; every failure inside
  the \<^verbatim>\<open>try\<close> is printed by its handler.
\<close>

definition undo_rename :: "path \<Rightarrow> path \<Rightarrow> int \<Rightarrow> viewer \<Rightarrow> viewer" where
  "undo_rename old new i s =
     (case os_rename (fsys s) new old of
        Inl e \<Rightarrow> print_failure ''undo failed'' e s
      | Inr fs' \<Rightarrow>
          (case py_set (image_files s) i old of
             Inl e \<Rightarrow> print_failure ''undo failed'' e (s\<lparr>fsys := fs'\<rparr>)
           | Inr view' \<Rightarrow>
               (let s1 = s\<lparr>fsys := fs', image_files := view',
                           all_image_files := replace_path new old (all_image_files s)\<rparr>
                in if i < 0 then print_failure ''undo failed'' AttributeError s1
                   else show_animated_overlay ''undo: rename reverted''
                          (update_image
                             (s1\<lparr>filmstrip_item_map :=
                                    insert old (filmstrip_item_map s - {new}),
                                  thumb_cache := rename_key new old (thumb_cache s)\<rparr>)))))"

definition undo_last_action :: "viewer \<Rightarrow> viewer" where
  "undo_last_action s =
     (if undo_stack s = [] then show_animated_overlay ''no history to undo'' s
      else
        (let s0 = s\<lparr>undo_stack := butlast (undo_stack s)\<rparr>
         in case last (undo_stack s) of
              Rename_inplace old new i \<Rightarrow> undo_rename old new i s0
            | Move old new i \<Rightarrow> undo_restore new old i s0
            | Delete old trash i \<Rightarrow> undo_restore trash old i s0))"

section \<open>Events\<close>

text \<open>
  \<^verbatim>\<open>_on_search_text_changed\<close> offers up to six catalogue entries whose name contains the
  typed text; nothing is offered for an empty text.
\<close>

definition suggest :: "string \<Rightarrow> viewer \<Rightarrow> path list" where
  "suggest raw s =
     (let txt = str_lower (strip raw)
      in if txt = [] then []
         else take 6 (filter (\<lambda>f. str_in txt (str_lower (path_name f))) (all_image_files s)))"

text \<open>
  What reaches the widget from outside: \<^verbatim>\<open>load_directory\<close> called by the main window,
  the keys of \<^verbatim>\<open>keyPressEvent\<close> in normal mode (a key that opens the input box comes with
  the text then typed and Return, or with Escape), the suggestion list, the filmstrip,
  the worker's signal, and another program changing the disk. \<^verbatim>\<open>keyPressEvent\<close> drops
  every key but undo and search while the view is empty; Escape and Space are handled
  before that guard. The widgets offer only what they show: a suggestion is one of
  those offered for the typed text, and the filmstrip, which has one row per entry of
  the view, reports a row below the length of the view.
\<close>

datatype event =
    Load_directory path int
  | Key_prev
  | Key_next
  | Key_delete
  | Key_undo
  | Key_move path
  | Key_rename string
  | Key_search string "path option"
  | Key_input_escape ViewerMode
  | Key_escape
  | Suggestion_activated string path
  | Filmstrip_selected int
  | Icon_ready path nat
  | Disk_changed filesystem

fun requires_images :: "event \<Rightarrow> bool" where
  "requires_images Key_prev = True"
| "requires_images Key_next = True"
| "requires_images Key_delete = True"
| "requires_images (Key_move d) = True"
| "requires_images (Key_rename t) = True"
| "requires_images e = False"

fun offered :: "event \<Rightarrow> viewer \<Rightarrow> bool" where
  "offered (Key_search t (Some p)) s = (p \<in> set (suggest t s))"
| "offered (Suggestion_activated t p) s = (p \<in> set (suggest t s))"
| "offered (Filmstrip_selected i) s = (i < int (length (image_files s)))"
| "offered e s = True"

fun dispatch :: "event \<Rightarrow> viewer \<Rightarrow> viewer" where
  "dispatch (Load_directory d i) s = state_of (load_directory s d i)"
| "dispatch Key_prev s = key_prev s"
| "dispatch Key_next s = key_next s"
| "dispatch Key_delete s = show_animated_overlay ''file trashed'' (state_of (delete_current s))"
| "dispatch Key_undo s = undo_last_action s"
| "dispatch (Key_move d) s =
     show_animated_overlay (''moved to '' @ path_name d) (state_of (move_to_target d s))"
| "dispatch (Key_rename t) s =
     (case open_text_input RENAME s of
        Raised e s1 \<Rightarrow> s1
      | Done s1 \<Rightarrow> state_of (process_text_input t None s1))"
| "dispatch (Key_search t sel) s =
     (case open_text_input SEARCH s of
        Raised e s1 \<Rightarrow> s1
      | Done s1 \<Rightarrow> state_of (process_text_input t sel s1))"
| "dispatch (Key_input_escape m) s =
     (case open_text_input m s of
        Raised e s1 \<Rightarrow> s1
      | Done s1 \<Rightarrow> key_escape_input s1)"
| "dispatch Key_escape s = snd (escape_or_back s)"
| "dispatch (Suggestion_activated t p) s =
     (case open_text_input SEARCH s of
        Raised e s1 \<Rightarrow> s1
      | Done s1 \<Rightarrow> jump_to_image p s1)"
| "dispatch (Filmstrip_selected i) s = on_filmstrip_selected i s"
| "dispatch (Icon_ready p pixmap) s = apply_thumbnail p pixmap s"
| "dispatch (Disk_changed fs) s = s\<lparr>fsys := fs\<rparr>"

definition step :: "event \<Rightarrow> viewer \<Rightarrow> viewer" where
  "step e s =
     (if (image_files s = [] \<and> requires_images e) \<or> \<not> offered e s then s
      else dispatch e s)"



definition search_flags :: "viewer \<Rightarrow> bool \<times> path option" where
  "search_flags s = (is_search_filtered s, pre_search_path s)"

text \<open>
  The cursor invariant of the catalogue: inside the view when there is one, zero when
  there is none.
\<close>

definition cursor_ok :: "viewer \<Rightarrow> bool" where
  "cursor_ok s =
     (if image_files s = [] then current_index s = 0
      else 0 \<le> current_index s \<and> current_index s < int (length (image_files s)))"

section \<open>Scenarios\<close>

text \<open>
  The directory of the specification's scenario, listed by the disk in no particular
  order, and the same directory with a subdirectory named like an image.
\<close>

definition pics :: path where
  "pics = [''pics'']"

definition scenario_fs :: filesystem where
  "scenario_fs =
     [(pics, Dir),
      (pics @ [''b.jpg''], File 2 True),
      (pics @ [''note.txt''], File 3 False),
      (pics @ [''a.png''], File 1 True)]"

definition loaded :: viewer where
  "loaded = state_of (load_directory (init_viewer scenario_fs) pics 0)"

definition renamed :: viewer where
  "renamed = state_of (rename_current_file ''z'' loaded)"

definition trashed :: viewer where
  "trashed = state_of (delete_current loaded)"

text \<open>
  The trashed state after another program has emptied the trash; and a rename at the
  second position followed by a filter that leaves one image in the view.
\<close>

definition purged :: viewer where
  "purged = step (Disk_changed (fs_remove (fsys trashed) [''pics'', ''.vimview_trash'', ''a.png''])) trashed"



text \<open>
  The scenario's directory with a trash that already holds \<^verbatim>\<open>a.png\<close> and \<^verbatim>\<open>a_1.png\<close>, and
  a folder \<^verbatim>\<open>keep\<close> that holds an \<^verbatim>\<open>a.png\<close> of its own.
\<close>

definition crowded_fs :: filesystem where
  "crowded_fs =
     scenario_fs @
     [(pics @ [''.vimview_trash''], Dir),
      (pics @ [''.vimview_trash'', ''a.png''], File 7 True),
      (pics @ [''.vimview_trash'', ''a_1.png''], File 8 True),
      (pics @ [''keep''], Dir),
      (pics @ [''keep'', ''a.png''], File 9 True)]"

definition crowded :: viewer where
  "crowded = state_of (load_directory (init_viewer crowded_fs) pics 0)"

definition album_fs :: filesystem where
  "album_fs = (pics @ [''album.png''], Dir) # scenario_fs"

definition album_loaded :: viewer where
  "album_loaded = state_of (load_directory (init_viewer album_fs) pics 0)"

section \<open>Decimal counters are distinct\<close>

definition digit_val :: "char \<Rightarrow> nat" where
  "digit_val c = (of_char c :: nat) - 48"

definition nat_of_str :: "string \<Rightarrow> nat" where
  "nat_of_str s = foldl (\<lambda>a c. 10 * a + digit_val c) 0 s"

lemma digit_val_digit_char: "d < 10 \<Longrightarrow> digit_val (digit_char d) = d"
  by (simp add: digit_val_def digit_char_def)

lemma nat_of_str_str_nat: "nat_of_str (str_nat n) = n"
proof (induction n rule: str_nat.induct)
  case (1 n)
  show ?case
  proof (cases "n < 10")
    case True
    then show ?thesis
      by (subst str_nat.simps) (simp add: nat_of_str_def digit_val_digit_char)
  next
    case False
    with 1 have ih: "nat_of_str (str_nat (n div 10)) = n div 10" by simp
    have "nat_of_str (str_nat n) = 10 * nat_of_str (str_nat (n div 10)) + n mod 10"
      using False
      by (subst str_nat.simps) (simp add: nat_of_str_def digit_val_digit_char)
    with ih show ?thesis by simp
  qed
qed

lemma str_nat_inj: "str_nat m = str_nat n \<Longrightarrow> m = n"
  by (metis nat_of_str_str_nat)

section \<open>The collision loop terminates\<close>

lemma candidate_inj: "candidate folder stem suf m = candidate folder stem suf n \<Longrightarrow> m = n"
  by (simp add: candidate_def str_nat_inj)

lemma path_exists_in: "path_exists fs p \<Longrightarrow> p \<in> insert [] (fst ` set fs)"
proof -
  assume "path_exists fs p"
  then have "p = [] \<or> (\<exists>n. map_of fs p = Some n)"
    by (auto simp: path_exists_def lookup_def split: if_splits)
  then show ?thesis
    by (auto dest!: map_of_SomeD intro: image_eqI [where x = "(p, n)" for n])
qed

lemma finite_existing_candidates:
  "finite {k. path_exists fs (candidate folder stem suf k)}"
proof -
  let ?cand = "candidate folder stem suf"
  have inj: "inj ?cand" by (auto simp: inj_on_def dest: candidate_inj)
  have "{k. path_exists fs (?cand k)} \<subseteq> ?cand -` (insert [] (fst ` set fs))"
    using path_exists_in by auto
  moreover have "finite (?cand -` (insert [] (fst ` set fs)))"
    using inj by (intro finite_vimageI) auto
  ultimately show ?thesis by (rule finite_subset)
qed

definition pending :: "filesystem \<Rightarrow> path \<Rightarrow> string \<Rightarrow> string \<Rightarrow> path \<Rightarrow> nat \<Rightarrow> nat" where
  "pending fs folder stem suf new_path counter =
     card {k. counter \<le> k \<and> path_exists fs (candidate folder stem suf k)}
     + (if path_exists fs new_path then 1 else 0)"

lemma pending_decreases:
  assumes "path_exists fs new_path"
  shows "pending fs folder stem suf (candidate folder stem suf counter) (Suc counter)
         < pending fs folder stem suf new_path counter"
proof -
  let ?cand = "candidate folder stem suf"
  let ?A = "{k. counter \<le> k \<and> path_exists fs (?cand k)}"
  let ?B = "{k. Suc counter \<le> k \<and> path_exists fs (?cand k)}"
  have fin: "finite ?A"
    by (rule finite_subset [OF _ finite_existing_candidates [of fs folder stem suf]]) auto
  show ?thesis
  proof (cases "path_exists fs (?cand counter)")
    case True
    have "?A = insert counter ?B" using True by (auto simp: le_Suc_eq) 
    moreover have "counter \<notin> ?B" by simp
    moreover have "finite ?B" using fin by (rule rev_finite_subset) auto
    ultimately have "card ?A = Suc (card ?B)" by simp
    with True assms show ?thesis by (simp add: pending_def)
  next
    case False
    have "?A = ?B" using False by (auto simp: Suc_le_eq order_less_le)
    with False assms show ?thesis by (simp add: pending_def)
  qed
qed

termination collision_loop
  by (relation "measure (\<lambda>(fs, folder, stem, suf, new_path, counter).
        pending fs folder stem suf new_path counter)")
     (auto intro: pending_decreases)

section \<open>Helper facts\<close>

lemma py_get_norm:
  "py_get xs i = Inr x \<Longrightarrow> 0 \<le> i \<Longrightarrow>
   nat i < length xs \<and> xs ! nat i = x \<and> py_norm xs i = Some (nat i)"
  by (auto simp: py_get_def py_norm_def Let_def split: if_splits option.splits)

section \<open>Renaming keeps the position (C4)\<close>

text \<open>
  C4 as stated fails on the specification's own scenario. After loading the directory
  holding \<^verbatim>\<open>a.png\<close>, \<^verbatim>\<open>b.jpg\<close> and \<^verbatim>\<open>note.txt\<close> the view is \<^verbatim>\<open>[a.png, b.jpg]\<close>, and
  renaming \<^verbatim>\<open>a.png\<close> to \<^verbatim>\<open>z\<close> does produce the file \<^verbatim>\<open>z.png\<close>; but the catalogue becomes
  \<^verbatim>\<open>[z.png, b.jpg]\<close>, which is neither sorted nor the list \<^verbatim>\<open>[b.jpg, z.png]\<close>.
\<close>

theorem rename_keeps_order_counterexample:
  "image_files loaded = [[''pics'', ''a.png''], [''pics'', ''b.jpg'']]
   \<and> lookup (fsys renamed) [''pics'', ''z.png''] = Some (File 1 True)
   \<and> all_image_files renamed = [[''pics'', ''z.png''], [''pics'', ''b.jpg'']]
   \<and> all_image_files renamed \<noteq> [[''pics'', ''b.jpg''], [''pics'', ''z.png'']]
   \<and> \<not> sorted (all_image_files renamed)"
  by code_simp

text \<open>
  C4 as amended: a successful rename (the current image exists at a cursor that is not
  negative, the target name is free and the operating system renames the file) writes
  the new path at the position of the old one in the view and in the catalogue, leaves
  every other position and the cursor alone, and pushes one undo entry. The lists are
  not sorted again.
\<close>

theorem rename_in_place:
  assumes cur: "py_get (image_files s) (current_index s) = Inr img"
    and nonneg: "0 \<le> current_index s"
    and fresh: "\<not> path_exists (fsys s) (rename_target img new_name)"
    and ok: "os_rename (fsys s) img (rename_target img new_name) = Inr fs'"
  shows "\<exists>s'. rename_current_file new_name s = Done s'
           \<and> fsys s' = fs'
           \<and> image_files s' = (image_files s)[nat (current_index s) := rename_target img new_name]
           \<and> all_image_files s' =
               (if img \<in> set (all_image_files s)
                then (all_image_files s)[py_index (all_image_files s) img := rename_target img new_name]
                else all_image_files s)
           \<and> current_index s' = current_index s
           \<and> undo_stack s' =
               undo_stack s @ [Rename_inplace img (rename_target img new_name) (current_index s)]"
proof -
  from py_get_norm [OF cur nonneg]
  have n: "nat (current_index s) < length (image_files s)"
    and norm: "py_norm (image_files s) (current_index s) = Some (nat (current_index s))"
    by simp_all
  from n nonneg
  have clamp: "max 0 (min (current_index s) (int (length (image_files s)) - 1)) = current_index s"
    by linarith
  from n have ne: "image_files s \<noteq> []" by auto
  show ?thesis
    using cur nonneg fresh ok norm clamp ne
    by (simp add: rename_current_file_def Let_def py_set_def update_image_def replace_path_def)
qed

theorem rename_in_place_witness:
  "py_get (image_files loaded) (current_index loaded) = Inr [''pics'', ''a.png'']
   \<and> 0 \<le> current_index loaded
   \<and> \<not> path_exists (fsys loaded) (rename_target [''pics'', ''a.png''] ''z'')
   \<and> os_rename (fsys loaded) [''pics'', ''a.png''] (rename_target [''pics'', ''a.png''] ''z'')
       = Inr (fsys renamed)
   \<and> rename_target [''pics'', ''a.png''] ''z'' = [''pics'', ''z.png'']
   \<and> image_files renamed = [[''pics'', ''z.png''], [''pics'', ''b.jpg'']]
   \<and> all_image_files renamed = [[''pics'', ''z.png''], [''pics'', ''b.jpg'']]
   \<and> current_index renamed = 0
   \<and> undo_stack renamed = [Rename_inplace [''pics'', ''a.png''] [''pics'', ''z.png''] 0]"
proof -
  have h1: "py_get (image_files loaded) (current_index loaded) = Inr [''pics'', ''a.png'']"
    by code_simp
  have h2: "0 \<le> current_index loaded" by code_simp
  have h3: "\<not> path_exists (fsys loaded) (rename_target [''pics'', ''a.png''] ''z'')"
    by code_simp
  have h4: "os_rename (fsys loaded) [''pics'', ''a.png''] (rename_target [''pics'', ''a.png''] ''z'')
              = Inr (fsys renamed)"
    by code_simp
  have t: "rename_target [''pics'', ''a.png''] ''z'' = [''pics'', ''z.png'']" by code_simp
  have l: "image_files loaded = [[''pics'', ''a.png''], [''pics'', ''b.jpg'']]"
    "all_image_files loaded = [[''pics'', ''a.png''], [''pics'', ''b.jpg'']]"
    "current_index loaded = 0" "undo_stack loaded = []"
    by code_simp+
  from rename_in_place [OF h1 h2 h3 h4] obtain s' where
    d: "rename_current_file ''z'' loaded = Done s'"
    and r: "image_files s' = (image_files loaded)[nat (current_index loaded) := rename_target [''pics'', ''a.png''] ''z'']"
      "all_image_files s' =
         (if [''pics'', ''a.png''] \<in> set (all_image_files loaded)
          then (all_image_files loaded)[py_index (all_image_files loaded) [''pics'', ''a.png''] := rename_target [''pics'', ''a.png''] ''z'']
          else all_image_files loaded)"
      "current_index s' = current_index loaded"
      "undo_stack s' = undo_stack loaded @ [Rename_inplace [''pics'', ''a.png''] (rename_target [''pics'', ''a.png''] ''z'') (current_index loaded)]"
    by blast
  from d have e: "renamed = s'" by (simp add: renamed_def)
  show ?thesis
    using h1 h2 h3 h4 r unfolding e t l by (simp add: py_index_def)
qed

section \<open>Undoing a move or a deletion (C1)\<close>

text \<open>
  C1 at a concrete input: in the loaded scenario the cursor is on \<^verbatim>\<open>a.png\<close>; deleting it
  and undoing at once restores the file, the view and the cursor, but the catalogue
  comes back as \<^verbatim>\<open>[b.jpg, a.png]\<close>: the undo appends the restored path to
  \<open>all_image_files\<close> where it inserts it into \<open>image_files\<close> at the recorded index.
\<close>

theorem delete_undo_reorders_catalogue:
  "all_image_files loaded = [[''pics'', ''a.png''], [''pics'', ''b.jpg'']]
   \<and> image_files loaded = [[''pics'', ''a.png''], [''pics'', ''b.jpg'']]
   \<and> current_index loaded = 0
   \<and> image_files (undo_last_action trashed) = [[''pics'', ''a.png''], [''pics'', ''b.jpg'']]
   \<and> current_index (undo_last_action trashed) = 0
   \<and> lookup (fsys (undo_last_action trashed)) [''pics'', ''a.png''] = Some (File 1 True)
   \<and> all_image_files (undo_last_action trashed) = [[''pics'', ''b.jpg''], [''pics'', ''a.png'']]"
  by code_simp

section \<open>A failed reversal (C3)\<close>

text \<open>
  C3 as stated fails: with the trashed file gone from the trash, undo cannot move it
  back, prints the failure and leaves view, catalogue and cursor alone, but the undo
  stack has lost the entry.
\<close>

theorem undo_failure_keeps_stack_counterexample:
  "undo_stack purged = [Delete [''pics'', ''a.png''] [''pics'', ''.vimview_trash'', ''a.png''] 0]
   \<and> reports (undo_last_action purged) = [Printed ''undo failed'' FileNotFoundError]
   \<and> undo_stack (undo_last_action purged) = []
   \<and> undo_stack (undo_last_action purged) \<noteq> undo_stack purged"
  by code_simp

text \<open>
  C3 as amended: when the file-system step of an undo fails, the failure is printed
  and the viewer is as before the call in every field (catalogue, view, cursor, caches,
  disk) but two: the report, and the undo stack, which has lost the entry that was to
  be reversed and keeps the entries below it.
\<close>

theorem undo_failure_drops_entry:
  assumes "undo_stack s \<noteq> []"
    and "(case last (undo_stack s) of
            Rename_inplace old new i \<Rightarrow> os_rename (fsys s) new old
          | Move old new i \<Rightarrow> shutil_move (fsys s) new old
          | Delete old trash i \<Rightarrow> shutil_move (fsys s) trash old) = Inl e"
  shows "undo_last_action s =
           s\<lparr>undo_stack := butlast (undo_stack s),
              reports := reports s @ [Printed ''undo failed'' e]\<rparr>"
  using assms
  by (cases "last (undo_stack s)")
     (simp_all add: undo_last_action_def undo_rename_def undo_restore_def print_failure_def Let_def)

theorem undo_failure_drops_entry_witness:
  "undo_stack purged \<noteq> []
   \<and> last (undo_stack purged) = Delete [''pics'', ''a.png''] [''pics'', ''.vimview_trash'', ''a.png''] 0
   \<and> shutil_move (fsys purged) [''pics'', ''.vimview_trash'', ''a.png''] [''pics'', ''a.png'']
       = Inl FileNotFoundError
   \<and> undo_last_action purged =
       purged\<lparr>undo_stack := [], reports := [Printed ''undo failed'' FileNotFoundError]\<rparr>"
proof -
  have h1: "undo_stack purged \<noteq> []" by code_simp
  have l: "last (undo_stack purged) = Delete [''pics'', ''a.png''] [''pics'', ''.vimview_trash'', ''a.png''] 0"
    by code_simp
  have m: "shutil_move (fsys purged) [''pics'', ''.vimview_trash'', ''a.png''] [''pics'', ''a.png'']
             = Inl FileNotFoundError"
    by code_simp
  have h2: "(case last (undo_stack purged) of
              Rename_inplace old new i \<Rightarrow> os_rename (fsys purged) new old
            | Move old new i \<Rightarrow> shutil_move (fsys purged) new old
            | Delete old trash i \<Rightarrow> shutil_move (fsys purged) trash old) = Inl FileNotFoundError"
    by (simp add: l m)
  have b: "butlast (undo_stack purged) = []" "reports purged = []" by code_simp+
  from undo_failure_drops_entry [OF h1 h2] show ?thesis
    using h1 l m by (simp add: b)
qed

section \<open>Undoing a rename with a stale index (C9)\<close>


section \<open>Loading what is not a directory (C8)\<close>




section \<open>What a load lists (C2)\<close>

text \<open>
  C2 at a concrete input: the scenario's directory with a subdirectory named
  \<^verbatim>\<open>album.png\<close>. \<^verbatim>\<open>_get_images\<close> filters the entries by suffix and leading dot only, so the
  subdirectory is listed among the images, between the two files.
\<close>

theorem load_lists_subdirectory:
  "lookup album_fs [''pics'', ''album.png''] = Some Dir
   \<and> all_image_files album_loaded =
       [[''pics'', ''a.png''], [''pics'', ''album.png''], [''pics'', ''b.jpg'']]
   \<and> image_files album_loaded = all_image_files album_loaded"
  by code_simp

section \<open>Name collisions on a move or a deletion (C7)\<close>

declare collision_loop.simps [simp del]

lemma collision_loop_free:
  "\<not> path_exists fs (collision_loop fs folder stem suf p c)"
proof (induction fs folder stem suf p c rule: collision_loop.induct)
  case (1 fs folder stem suf new_path counter)
  then show ?case by (subst collision_loop.simps) simp
qed

lemma collision_loop_first_free:
  "path_exists fs p \<Longrightarrow>
   \<exists>n\<ge>c. collision_loop fs folder stem suf p c = candidate folder stem suf n
        \<and> (\<forall>k. c \<le> k \<and> k < n \<longrightarrow> path_exists fs (candidate folder stem suf k))"
proof (induction fs folder stem suf p c rule: collision_loop.induct)
  case (1 fs folder stem suf new_path counter)
  let ?next = "candidate folder stem suf counter"
  have unfold: "collision_loop fs folder stem suf new_path counter =
                collision_loop fs folder stem suf ?next (counter + 1)"
    using "1.prems" by (subst collision_loop.simps) simp
  show ?case
  proof (cases "path_exists fs ?next")
    case False
    then have "collision_loop fs folder stem suf ?next (counter + 1) = ?next"
      by (subst collision_loop.simps) simp
    with unfold show ?thesis by (intro exI [of _ counter]) auto
  next
    case True
    from "1.IH" [OF "1.prems" True] obtain n where
      n: "counter + 1 \<le> n"
        "collision_loop fs folder stem suf ?next (counter + 1) = candidate folder stem suf n"
        "\<forall>k. counter + 1 \<le> k \<and> k < n \<longrightarrow> path_exists fs (candidate folder stem suf k)"
      by blast
    have "\<forall>k. counter \<le> k \<and> k < n \<longrightarrow> path_exists fs (candidate folder stem suf k)"
    proof (intro allI impI)
      fix k assume k: "counter \<le> k \<and> k < n"
      show "path_exists fs (candidate folder stem suf k)"
      proof (cases "k = counter")
        case True with \<open>path_exists fs ?next\<close> show ?thesis by simp
      next
        case False with k n(3) show ?thesis by simp
      qed
    qed
    with n unfold show ?thesis by (intro exI [of _ n]) auto
  qed
qed

lemma lookup_fs_remove:
  "lookup (fs_remove fs p) q = (if q = p \<and> p \<noteq> [] then None else lookup fs q)"
  by (induction fs) (auto simp: lookup_def fs_remove_def)

lemma rename_file_to_free_path:
  assumes src: "lookup fs img = Some (File c d)"
    and dir: "is_dir fs (path_parent new)"
    and free: "\<not> path_exists fs new"
  shows "\<exists>fs'. shutil_move fs img new = Inr fs'
           \<and> lookup fs' new = Some (File c d)
           \<and> lookup fs' img = None
           \<and> (\<forall>q. q \<noteq> img \<and> q \<noteq> new \<longrightarrow> lookup fs' q = lookup fs q)"
proof -
  from src have img: "img \<noteq> []" by (auto simp: lookup_def split: if_splits)
  from free have new: "new \<noteq> []" by (auto simp: path_exists_def lookup_def)
  from src free have ne: "img \<noteq> new" by (auto simp: path_exists_def)
  from free have nd: "\<not> is_dir fs new" by (simp add: path_exists_def is_dir_def)
  from dir have pe: "path_exists fs (path_parent new)" by (simp add: path_exists_def is_dir_def)
  let ?fs' = "(new, File c d) # fs_remove (fs_remove fs img) new"
  have mv: "shutil_move fs img new = Inr ?fs'"
    using src img new ne nd pe dir by (simp add: shutil_move_def os_rename_def)
  have "lookup ?fs' new = Some (File c d)" using new by (simp add: lookup_def)
  moreover have "lookup ?fs' img = None"
    using img new ne lookup_fs_remove [of "fs_remove fs img" new img] lookup_fs_remove [of fs img img]
    by (simp add: lookup_def)
  moreover have "\<forall>q. q \<noteq> img \<and> q \<noteq> new \<longrightarrow> lookup ?fs' q = lookup fs q"
  proof (intro allI impI)
    fix q assume q: "q \<noteq> img \<and> q \<noteq> new"
    have "lookup ?fs' q = lookup (fs_remove (fs_remove fs img) new) q"
      using q by (simp add: lookup_def)
    also have "\<dots> = lookup fs q" using q by (simp add: lookup_fs_remove)
    finally show "lookup ?fs' q = lookup fs q" .
  qed
  ultimately show ?thesis using mv by blast
qed


lemma wf_fs_parent_is_dir:
  assumes "wf_fs fs" and "path_exists fs (d @ [x])"
  shows "is_dir fs d"
proof -
  from assms(2) obtain n where "map_of fs (d @ [x]) = Some n"
    by (auto simp: path_exists_def lookup_def)
  then have "(d @ [x], n) \<in> set fs" by (rule map_of_SomeD)
  with assms(1) have "is_dir fs (butlast (d @ [x]))"
    by (auto simp: wf_fs_def list_all_iff)
  then show ?thesis by simp
qed

lemma mkdir_parents_existing:
  assumes "wf_fs fs" and "is_dir fs d"
  shows "mkdir_parents fs d = Inr fs"
proof (cases d rule: rev_cases)
  case Nil
  then show ?thesis by (simp add: mkdir_parents_def)
next
  case (snoc ds x)
  from assms(2) have ex: "path_exists fs d" by (simp add: path_exists_def is_dir_def)
  with assms(1) snoc have par: "is_dir fs ds" by (auto dest: wf_fs_parent_is_dir)
  then have "path_exists fs ds" by (simp add: path_exists_def is_dir_def)
  with par ex assms(2) snoc have "os_mkdir fs (ds @ [x]) = Inl FileExistsError"
    by (simp add: os_mkdir_def path_parent_def)
  with assms(2) snoc show ?thesis by (simp add: mkdir_parents_def)
qed

lemma move_and_remove_done:
  assumes cur: "py_get (image_files s) (current_index s) = Inr img"
    and nonneg: "0 \<le> current_index s"
    and mv: "shutil_move (fsys s) img new = Inr fs'"
  shows "fsys (move_and_remove msg entry img new s) = fs'
       \<and> undo_stack (move_and_remove msg entry img new s) =
           undo_stack s @ [entry img new (current_index s)]
       \<and> reports (move_and_remove msg entry img new s) = reports s
       \<and> image_files (move_and_remove msg entry img new s) =
           take (nat (current_index s)) (image_files s)
           @ drop (Suc (nat (current_index s))) (image_files s)
       \<and> all_image_files (move_and_remove msg entry img new s) =
           remove1 img (all_image_files s)"
proof -
  from py_get_norm [OF cur nonneg]
  have norm: "py_norm (image_files s) (current_index s) = Some (nat (current_index s))"
    and at: "image_files s ! nat (current_index s) = img"
    by simp_all
  show ?thesis
    using mv norm at
    by (simp add: move_and_remove_def remove_item_from_view_def py_pop_def update_image_def Let_def)
qed

text \<open>
  C7: the current image is a regular file, the disk is a tree, and the destination
  (the target folder of a move, the trash area of a deletion) already holds another
  entry of the same name. Then the operation returns without printing a failure, the
  entry at the destination is what it was, and the moved file stands beside it under
  \<^verbatim>\<open>stem_n suffix\<close>, where \<open>n \<ge> 1\<close> is the first counter whose name is free; the source
  path is gone and the undo entry records both paths.
\<close>

theorem collision_gets_first_free_suffix:
  assumes wf: "wf_fs (fsys s)"
    and cur: "py_get (image_files s) (current_index s) = Inr img"
    and nonneg: "0 \<le> current_index s"
    and src: "lookup (fsys s) img = Some (File c d)"
    and which: "(operation, entry) = (move_to_target dest, Move)
                \<or> ((operation, entry) = (delete_current, Delete) \<and> trash_dir s = Some dest)"
    and collision: "path_exists (fsys s) (dest @ [path_name img])"
    and other: "dest @ [path_name img] \<noteq> img"
  shows "\<exists>n\<ge>1. \<exists>s'. operation s = Done s'
           \<and> (\<forall>k. 1 \<le> k \<and> k < n \<longrightarrow>
                 path_exists (fsys s) (candidate dest (path_stem img) (path_suffix img) k))
           \<and> \<not> path_exists (fsys s) (candidate dest (path_stem img) (path_suffix img) n)
           \<and> candidate dest (path_stem img) (path_suffix img) n \<noteq> dest @ [path_name img]
           \<and> lookup (fsys s') (candidate dest (path_stem img) (path_suffix img) n)
               = Some (File c d)
           \<and> lookup (fsys s') (dest @ [path_name img]) = lookup (fsys s) (dest @ [path_name img])
           \<and> lookup (fsys s') img = None
           \<and> undo_stack s' =
               undo_stack s
               @ [entry img (candidate dest (path_stem img) (path_suffix img) n) (current_index s)]
           \<and> reports s' = reports s"
proof -
  let ?cand = "candidate dest (path_stem img) (path_suffix img)"
  from wf collision have dir: "is_dir (fsys s) dest" by (rule wf_fs_parent_is_dir)
  from collision_loop_first_free [OF collision, of 1 dest "path_stem img" "path_suffix img"]
  obtain n where n: "1 \<le> n" "free_path (fsys s) dest img = ?cand n"
    and below: "\<forall>k. 1 \<le> k \<and> k < n \<longrightarrow> path_exists (fsys s) (?cand k)"
    by (auto simp: free_path_def)
  have free: "\<not> path_exists (fsys s) (?cand n)"
    using collision_loop_free [of "fsys s" dest "path_stem img" "path_suffix img"
        "dest @ [path_name img]" 1] n(2)
    by (simp add: free_path_def)
  with collision have distinct: "?cand n \<noteq> dest @ [path_name img]" by auto
  have par: "path_parent (?cand n) = dest" by (simp add: candidate_def path_parent_def)
  from rename_file_to_free_path [OF src _ free] dir par obtain fs' where
    mv: "shutil_move (fsys s) img (?cand n) = Inr fs'"
    and new: "lookup fs' (?cand n) = Some (File c d)"
    and gone: "lookup fs' img = None"
    and rest: "\<forall>q. q \<noteq> img \<and> q \<noteq> ?cand n \<longrightarrow> lookup fs' q = lookup (fsys s) q"
    by auto
  from rest other distinct
  have kept: "lookup fs' (dest @ [path_name img]) = lookup (fsys s) (dest @ [path_name img])"
    by simp
  have "\<exists>msg. operation s = Done (move_and_remove msg entry img (?cand n) s)"
  proof -
    from which consider
      (move) "operation = move_to_target dest" "entry = Move"
      | (delete) "operation = delete_current" "entry = Delete" "trash_dir s = Some dest"
      by auto
    then show ?thesis
    proof cases
      case move
      then show ?thesis
        using cur mkdir_parents_existing [OF wf dir] n(2)
        by (auto simp: move_to_target_def)
    next
      case delete
      then show ?thesis
        using cur n(2) by (auto simp: delete_current_def)
    qed
  qed
  then obtain msg where
    result: "operation s = Done (move_and_remove msg entry img (?cand n) s)" ..
  from move_and_remove_done [OF cur nonneg mv, of msg entry] result n(1) below free distinct
    new kept gone
  show ?thesis by (intro exI [of _ n]) auto
qed


theorem collision_gets_first_free_suffix_witness:
  "wf_fs (fsys crowded)
   \<and> py_get (image_files crowded) (current_index crowded) = Inr [''pics'', ''a.png'']
   \<and> lookup (fsys crowded) [''pics'', ''a.png''] = Some (File 1 True)
   \<and> trash_dir crowded = Some [''pics'', ''.vimview_trash'']
   \<and> path_exists (fsys crowded) [''pics'', ''.vimview_trash'', ''a.png'']
   \<and> path_exists (fsys crowded) [''pics'', ''.vimview_trash'', ''a_1.png'']
   \<and> \<not> path_exists (fsys crowded) [''pics'', ''.vimview_trash'', ''a_2.png'']
   \<and> lookup (fsys (state_of (delete_current crowded))) [''pics'', ''.vimview_trash'', ''a_2.png'']
       = Some (File 1 True)
   \<and> lookup (fsys (state_of (delete_current crowded))) [''pics'', ''.vimview_trash'', ''a.png'']
       = Some (File 7 True)
   \<and> lookup (fsys (state_of (delete_current crowded))) [''pics'', ''a.png''] = None
   \<and> undo_stack (state_of (delete_current crowded)) =
       [Delete [''pics'', ''a.png''] [''pics'', ''.vimview_trash'', ''a_2.png''] 0]"
proof -
  let ?trash = "[''pics'', ''.vimview_trash'']"
  let ?img = "[''pics'', ''a.png'']"
  let ?cand = "candidate ?trash (path_stem ?img) (path_suffix ?img)"
  have wf: "wf_fs (fsys crowded)" by code_simp
  have cur: "py_get (image_files crowded) (current_index crowded) = Inr ?img" by code_simp
  have nonneg: "0 \<le> current_index crowded" by code_simp
  have src: "lookup (fsys crowded) ?img = Some (File 1 True)" by code_simp
  have tr: "trash_dir crowded = Some ?trash" by code_simp
  have which: "(delete_current, Delete) = (move_to_target ?trash, Move)
               \<or> ((delete_current, Delete) = (delete_current, Delete) \<and> trash_dir crowded = Some ?trash)"
    using tr by simp
  have nm: "?trash @ [path_name ?img] = [''pics'', ''.vimview_trash'', ''a.png'']" by code_simp
  have collision: "path_exists (fsys crowded) (?trash @ [path_name ?img])" by code_simp
  have other: "?trash @ [path_name ?img] \<noteq> ?img" by code_simp
  have c1: "?cand 1 = [''pics'', ''.vimview_trash'', ''a_1.png'']" by code_simp
  have c2: "?cand 2 = [''pics'', ''.vimview_trash'', ''a_2.png'']" by code_simp
  have e1: "path_exists (fsys crowded) (?cand 1)" by code_simp
  have e2: "\<not> path_exists (fsys crowded) (?cand 2)" by code_simp
  have st: "undo_stack crowded = []" "current_index crowded = 0" by code_simp+
  from collision_gets_first_free_suffix [OF wf cur nonneg src which collision other]
  obtain n s' where n: "1 \<le> n"
    and d: "delete_current crowded = Done s'"
    and below: "\<forall>k. 1 \<le> k \<and> k < n \<longrightarrow> path_exists (fsys crowded) (?cand k)"
    and free: "\<not> path_exists (fsys crowded) (?cand n)"
    and new: "lookup (fsys s') (?cand n) = Some (File 1 True)"
    and kept: "lookup (fsys s') (?trash @ [path_name ?img]) = lookup (fsys crowded) (?trash @ [path_name ?img])"
    and gone: "lookup (fsys s') ?img = None"
    and undo: "undo_stack s' = undo_stack crowded @ [Delete ?img (?cand n) (current_index crowded)]"
    by blast
  have "n = 2"
  proof (rule ccontr)
    assume "n \<noteq> 2"
    with n consider "n = 1" | "2 < n" by linarith
    then show False
    proof cases
      case 1 with free e1 show False by simp
    next
      case 2 with below have "path_exists (fsys crowded) (?cand 2)" by simp
      with e2 show False by simp
    qed
  qed
  have k: "lookup (fsys crowded) [''pics'', ''.vimview_trash'', ''a.png''] = Some (File 7 True)"
    by code_simp
  from d have s': "state_of (delete_current crowded) = s'" by simp
  show ?thesis
    using wf cur src tr collision e1 e2 new kept gone undo
    unfolding s' \<open>n = 2\<close> c1 c2 nm st k by simp
qed

section \<open>The cursor stays inside the view (C5)\<close>


lemma cursor_ok_same_view:
  "image_files s' = image_files s \<Longrightarrow> current_index s' = current_index s \<Longrightarrow>
   cursor_ok s' = cursor_ok s"
  by (simp add: cursor_ok_def)

lemma cursor_ok_overlay [simp]: "cursor_ok (show_animated_overlay m s) = cursor_ok s"
  by (simp add: cursor_ok_def show_animated_overlay_def)

lemma cursor_ok_print [simp]: "cursor_ok (print_failure m e s) = cursor_ok s"
  by (simp add: cursor_ok_def print_failure_def)





lemma py_index_less: "x \<in> set xs \<Longrightarrow> py_index xs x < length xs"
  by (induction xs) (auto simp: py_index_def)















lemma cursor_ok_fsys [simp]: "cursor_ok (s\<lparr>fsys := fs\<rparr>) = cursor_ok s"
  by (simp add: cursor_ok_def)



lemma cursor_ok_undo_stack [simp]: "cursor_ok (s\<lparr>undo_stack := u\<rparr>) = cursor_ok s"
  by (simp add: cursor_ok_def)


lemma py_insert_not_Nil [simp]: "py_insert xs i v \<noteq> []"
  by (simp add: py_insert_def Let_def)




lemma open_search_catalogue:
  "all_image_files (state_of (open_text_input m s)) = all_image_files s"
  by (auto simp: open_text_input_def Let_def split: sum.splits)

lemma suggest_open:
  "suggest t (state_of (open_text_input m s)) = suggest t s"
  unfolding suggest_def open_search_catalogue ..







section \<open>Clearing the filter (C6)\<close>

lemma py_index_nth: "x \<in> set xs \<Longrightarrow> xs ! py_index xs x = x"
  by (induction xs) (auto simp: py_index_def)

lemma flags_update_image [simp]: "search_flags (update_image s) = search_flags s"
  by (simp add: search_flags_def update_image_def)

lemma flags_overlay [simp]: "search_flags (show_animated_overlay m s) = search_flags s"
  by (simp add: search_flags_def show_animated_overlay_def)

lemma flags_print [simp]: "search_flags (print_failure m e s) = search_flags s"
  by (simp add: search_flags_def print_failure_def)


















section \<open>Thumbnails that arrive late\<close>

text \<open>
  The signal handler looks the path up in the filmstrip's dictionary; a path without an
  item changes nothing, neither the filmstrip nor the thumbnail cache. Rebuilding the
  filmstrip (on a load, a filter change or a cleared filter) makes the dictionary's keys
  the paths of the view, and a removal from the view takes the key out.
\<close>

lemma apply_thumbnail_absent:
  "p \<notin> filmstrip_item_map s \<Longrightarrow> apply_thumbnail p pixmap s = s"
  by (simp add: apply_thumbnail_def)

lemma rebuild_item_map:
  "filmstrip_item_map (rebuild_filmstrip_and_thumbnails s) =
   set (image_files (rebuild_filmstrip_and_thumbnails s))"
  by (simp add: rebuild_filmstrip_and_thumbnails_def update_image_def)

lemma thumbnail_after_rebuild:
  "p \<notin> set (image_files (rebuild_filmstrip_and_thumbnails s)) \<Longrightarrow>
   apply_thumbnail p pixmap (rebuild_filmstrip_and_thumbnails s) =
   rebuild_filmstrip_and_thumbnails s"
  by (simp add: apply_thumbnail_absent rebuild_item_map)

lemma thumbnail_after_removal:
  assumes "remove_item_from_view i s = Inr s'"
    and "filmstrip_item_map s = set (image_files s)" and "distinct (image_files s)"
  shows "filmstrip_item_map s' = set (image_files s') \<and> distinct (image_files s')"
proof -
  from assms(1) obtain j where j: "py_norm (image_files s) i = Some j"
    and s': "s' = update_image
                 (s\<lparr>image_files := take j (image_files s) @ drop (Suc j) (image_files s),
                    all_image_files := remove1 (image_files s ! j) (all_image_files s),
                    filmstrip_item_map := filmstrip_item_map s - {image_files s ! j}\<rparr>)"
    by (auto simp: remove_item_from_view_def py_pop_def split: option.splits)
  from j have lt: "j < length (image_files s)"
    by (auto simp: py_norm_def Let_def split: if_splits)
  have split: "image_files s = take j (image_files s) @ image_files s ! j # drop (Suc j) (image_files s)"
    using lt by (rule id_take_nth_drop)
  from assms(3) split
  have d: "distinct (take j (image_files s) @ image_files s ! j # drop (Suc j) (image_files s))"
    by simp
  then have notin: "image_files s ! j \<notin> set (take j (image_files s) @ drop (Suc j) (image_files s))"
    by auto
  have "set (image_files s) =
          insert (image_files s ! j) (set (take j (image_files s) @ drop (Suc j) (image_files s)))"
    by (subst split) auto
  with notin have "set (image_files s) - {image_files s ! j} =
                   set (take j (image_files s) @ drop (Suc j) (image_files s))"
    by auto
  moreover from d have "distinct (take j (image_files s) @ drop (Suc j) (image_files s))"
    by auto
  ultimately show ?thesis
    unfolding s' using assms(2) by (simp add: update_image_def)
qed

section \<open>What a load lists, by entries\<close>

lemma set_iterdir:
  "set (iterdir fs d) = {p. p \<noteq> [] \<and> butlast p = d \<and> path_exists fs p}"
proof -
  have "\<And>p. p \<noteq> [] \<Longrightarrow> path_exists fs p \<longleftrightarrow> p \<in> fst ` set fs"
    by (simp add: path_exists_def lookup_def map_of_eq_None_iff)
  then show ?thesis by (auto simp: iterdir_def)
qed

lemma distinct_iterdir: "distinct (iterdir fs d)"
  by (simp add: iterdir_def)

lemma trash_not_image: "\<not> is_image_entry (d @ [''.vimview_trash''])"
  by (simp add: is_image_entry_def path_name_def startswith_def)

lemma mkdir_exist_ok_effect:
  assumes "mkdir_exist_ok fs p = Inr fs'"
  shows "fs' = fs \<or> (fs' = (p, Dir) # fs \<and> \<not> path_exists fs p)"
  using assms
  by (auto simp: mkdir_exist_ok_def os_mkdir_def split: if_splits)

text \<open>
  For entries of either kind, the listing is as the specification describes it: when
  the trash directory can be made (it exists as a directory or does not exist), a load
  returns with a catalogue that is sorted, without repetition, and holds exactly the
  entries directly inside the directory whose lower-cased suffix is an image suffix and
  whose name has no leading dot; and the view is the catalogue.
\<close>

lemma load_lists_sorted_entries:
  assumes dir: "is_dir (fsys s) d"
    and trash: "mkdir_exist_ok (fsys s) (d @ [''.vimview_trash'']) = Inr fs'"
  shows "\<exists>s'. load_directory s d i = Done s'
           \<and> sorted (all_image_files s') \<and> distinct (all_image_files s')
           \<and> set (all_image_files s') =
               {p. p \<noteq> [] \<and> butlast p = d \<and> path_exists (fsys s) p \<and> is_image_entry p}
           \<and> image_files s' = all_image_files s'"
proof -
  let ?t = "d @ [''.vimview_trash'']"
  from mkdir_exist_ok_effect [OF trash]
  have fs': "fs' = fsys s \<or> (fs' = (?t, Dir) # fsys s \<and> \<not> path_exists (fsys s) ?t)" .
  then have dir': "is_dir fs' d"
    using dir by (auto simp: is_dir_def lookup_def)
  have ex: "\<And>p. p \<noteq> ?t \<Longrightarrow> path_exists fs' p = path_exists (fsys s) p"
    using fs' by (auto simp: path_exists_def lookup_def)
  have same: "{p. p \<noteq> [] \<and> butlast p = d \<and> path_exists fs' p \<and> is_image_entry p} =
              {p. p \<noteq> [] \<and> butlast p = d \<and> path_exists (fsys s) p \<and> is_image_entry p}"
  proof -
    have "\<And>p. is_image_entry p \<Longrightarrow> butlast p = d \<Longrightarrow>
            path_exists fs' p = path_exists (fsys s) p"
    proof -
      fix p assume "is_image_entry p" "butlast p = d"
      with trash_not_image [of d] have "p \<noteq> ?t" by auto
      then show "path_exists fs' p = path_exists (fsys s) p" by (rule ex)
    qed
    then show ?thesis by blast
  qed
  let ?imgs = "sort (filter is_image_entry (iterdir fs' d))"
  have imgs: "sorted ?imgs" "distinct ?imgs"
    "set ?imgs = {p. p \<noteq> [] \<and> butlast p = d \<and> path_exists (fsys s) p \<and> is_image_entry p}"
    using same by (auto simp: set_iterdir distinct_iterdir)
  have "\<exists>s'. load_directory s d i = Done s' \<and> all_image_files s' = ?imgs \<and> image_files s' = ?imgs"
    using trash dir'
    by (simp add: load_directory_def Let_def get_images_def
                  rebuild_filmstrip_and_thumbnails_def update_image_def)
  with imgs show ?thesis by auto
qed

section \<open>What undo does restore\<close>

lemma lookup_renamed:
  assumes "new \<noteq> []" and "img \<noteq> []"
  shows "lookup ((new, n) # fs_remove (fs_remove fs img) new) q =
           (if q = new then Some n else if q = img then None else lookup fs q)"
proof -
  have "lookup ((new, n) # fs_remove (fs_remove fs img) new) q =
          (if q = new then Some n else lookup (fs_remove (fs_remove fs img) new) q)"
    using assms(1) by (simp add: lookup_def)
  also have "\<dots> = (if q = new then Some n else if q = img then None else lookup fs q)"
    using assms by (simp add: lookup_fs_remove)
  finally show ?thesis .
qed

lemma rename_file_result:
  assumes src: "lookup fs img = Some (File c d)"
    and free: "\<not> path_exists fs new"
    and there: "os_rename fs img new = Inr fs'"
  shows "\<forall>q. lookup fs' q = (if q = new then Some (File c d) else if q = img then None else lookup fs q)"
proof -
  from src have img: "img \<noteq> []" by (auto simp: lookup_def split: if_splits)
  from free have new: "new \<noteq> []" by (auto simp: path_exists_def lookup_def)
  from src free have ne: "img \<noteq> new" by (auto simp: path_exists_def)
  from free have nd: "\<not> is_dir fs new" by (simp add: path_exists_def is_dir_def)
  from there src img new ne nd
  have "fs' = (new, File c d) # fs_remove (fs_remove fs img) new"
    by (auto simp: os_rename_def split: if_splits)
  then show ?thesis using lookup_renamed [OF new img] by simp
qed

lemma rename_file_back:
  assumes src: "lookup fs img = Some (File c d)"
    and wf: "wf_fs fs"
    and free: "\<not> path_exists fs new"
    and there: "os_rename fs img new = Inr fs'"
  shows "\<exists>fs''. os_rename fs' new img = Inr fs'' \<and> (\<forall>q. lookup fs'' q = lookup fs q)"
proof -
  from src have img: "img \<noteq> []" by (auto simp: lookup_def split: if_splits)
  from free have new: "new \<noteq> []" by (auto simp: path_exists_def lookup_def)
  from src free have ne: "img \<noteq> new" by (auto simp: path_exists_def)
  from rename_file_result [OF src free there]
  have look: "\<And>q. lookup fs' q =
                (if q = new then Some (File c d) else if q = img then None else lookup fs q)"
    by blast
  from src img have "path_exists fs (butlast img @ [last img])"
    by (simp add: path_exists_def)
  with wf have pd: "is_dir fs (butlast img)" by (rule wf_fs_parent_is_dir)
  with free have pn: "butlast img \<noteq> new" by (auto simp: is_dir_def path_exists_def)
  have "length (butlast img) < length img" using img by simp
  then have pi: "butlast img \<noteq> img" by (metis less_irrefl)
  from pd pn pi have pd': "is_dir fs' (path_parent img)" "path_exists fs' (path_parent img)"
    by (simp_all add: is_dir_def path_exists_def look path_parent_def)
  have src': "lookup fs' new = Some (File c d)" by (simp add: look)
  have nd': "\<not> is_dir fs' img" using ne by (simp add: is_dir_def look)
  let ?fs'' = "(img, File c d) # fs_remove (fs_remove fs' new) img"
  have undone: "os_rename fs' new img = Inr ?fs''"
    using src' img new ne pd' nd' by (simp add: os_rename_def)
  have "\<forall>q. lookup ?fs'' q = lookup fs q"
  proof
    fix q
    have "lookup ?fs'' q = (if q = img then Some (File c d) else if q = new then None else lookup fs' q)"
      by (rule lookup_renamed [OF img new])
    also have "\<dots> = lookup fs q"
      using src free ne by (auto simp: look path_exists_def)
    finally show "lookup ?fs'' q = lookup fs q" .
  qed
  with undone show ?thesis by blast
qed

lemma replace_path_back:
  assumes "b \<notin> set xs"
  shows "replace_path b a (replace_path a b xs) = xs"
proof (cases "a \<in> set xs")
  case False
  with assms show ?thesis by (simp add: replace_path_def)
next
  case True
  let ?k = "py_index xs a"
  from True have k: "?k < length xs" by (rule py_index_less)
  from True have at: "xs ! ?k = a" by (rule py_index_nth)
  have tw: "takeWhile (\<lambda>y. y \<noteq> b) (xs[?k := b]) = take ?k xs"
  proof -
    have "xs[?k := b] = take ?k xs @ b # drop (Suc ?k) xs"
      using k by (rule upd_conv_take_nth_drop)
    moreover have "\<forall>y\<in>set (take ?k xs). y \<noteq> b"
      using assms by (auto dest: in_set_takeD)
    ultimately show ?thesis by simp
  qed
  have idx: "py_index (xs[?k := b]) b = ?k"
    using k by (simp add: py_index_def [of "xs[?k := b]"] tw)
  have mem: "b \<in> set (xs[?k := b])" using k by (simp add: set_update_memI)
  have "replace_path b a (xs[?k := b]) = xs[?k := b, ?k := a]"
    using mem idx by (simp add: replace_path_def)
  also have "\<dots> = xs" using at list_update_id [of xs ?k] by simp
  finally show ?thesis using True by (simp add: replace_path_def)
qed


text \<open>
  Where the round trip of C1 does hold. A rename followed at once by undo gives back
  the catalogue, the view, the cursor, the undo stack and the disk layout, when the
  image is a regular file on a disk that is a tree and the catalogue did not already
  list the new path.
\<close>

lemma rename_undo_roundtrip:
  assumes wf: "wf_fs (fsys s)"
    and cur: "py_get (image_files s) (current_index s) = Inr img"
    and nonneg: "0 \<le> current_index s"
    and src: "lookup (fsys s) img = Some (File c d)"
    and fresh: "\<not> path_exists (fsys s) (rename_target img new_name)"
    and ok: "os_rename (fsys s) img (rename_target img new_name) = Inr fs'"
    and unlisted: "rename_target img new_name \<notin> set (all_image_files s)"
  shows "all_image_files (undo_last_action (state_of (rename_current_file new_name s)))
           = all_image_files s
       \<and> image_files (undo_last_action (state_of (rename_current_file new_name s)))
           = image_files s
       \<and> current_index (undo_last_action (state_of (rename_current_file new_name s)))
           = current_index s
       \<and> undo_stack (undo_last_action (state_of (rename_current_file new_name s)))
           = undo_stack s
       \<and> (\<forall>q. lookup (fsys (undo_last_action (state_of (rename_current_file new_name s)))) q
                = lookup (fsys s) q)"
proof -
  let ?new = "rename_target img new_name"
  let ?i = "current_index s"
  from py_get_norm [OF cur nonneg]
  have n: "nat ?i < length (image_files s)"
    and at: "image_files s ! nat ?i = img"
    and norm: "py_norm (image_files s) ?i = Some (nat ?i)"
    by simp_all
  from n nonneg
  have clamp: "max 0 (min ?i (int (length (image_files s)) - 1)) = ?i" by linarith
  from n have ne: "image_files s \<noteq> []" by auto
  define s1 where "s1 = state_of (rename_current_file new_name s)"
  have s1: "fsys s1 = fs'"
    "image_files s1 = (image_files s)[nat ?i := ?new]"
    "all_image_files s1 = replace_path img ?new (all_image_files s)"
    "current_index s1 = ?i"
    "undo_stack s1 = undo_stack s @ [Rename_inplace img ?new ?i]"
    unfolding s1_def
    using cur nonneg fresh ok norm clamp ne
    by (simp_all add: rename_current_file_def Let_def py_set_def update_image_def)
  from rename_file_back [OF src wf fresh ok] obtain fs'' where
    undone: "os_rename fs' ?new img = Inr fs''" and same: "\<forall>q. lookup fs'' q = lookup (fsys s) q"
    by blast
  have norm1: "py_norm (image_files s1) ?i = Some (nat ?i)"
    using norm by (simp add: s1 py_norm_def)
  have view: "(image_files s1)[nat ?i := img] = image_files s"
    using at list_update_id [of "image_files s" "nat ?i"] by (simp add: s1)
  have cat: "replace_path ?new img (all_image_files s1) = all_image_files s"
    using unlisted by (simp add: s1 replace_path_back)
  have "undo_last_action s1 =
          show_animated_overlay ''undo: rename reverted''
            (update_image
               (s1\<lparr>undo_stack := undo_stack s, fsys := fs'', image_files := image_files s,
                   all_image_files := all_image_files s,
                   filmstrip_item_map := insert img (filmstrip_item_map s1 - {?new}),
                   thumb_cache := rename_key ?new img (thumb_cache s1)\<rparr>))"
    using undone norm1 view cat nonneg
    by (simp add: undo_last_action_def undo_rename_def Let_def s1 py_set_def)
  then show ?thesis
    unfolding s1_def [symmetric]
    using same clamp ne by (simp add: show_animated_overlay_def update_image_def s1)
qed


lemma py_insert_removed:
  assumes "i < length xs"
  shows "py_insert (take i xs @ drop (Suc i) xs) (int i) (xs ! i) = xs"
proof -
  have len: "length (take i xs @ drop (Suc i) xs) = length xs - 1" using assms by simp
  have "min (int i) (int (length xs - 1)) = int i" using assms by simp
  then have "py_insert (take i xs @ drop (Suc i) xs) (int i) (xs ! i) =
               take i (take i xs @ drop (Suc i) xs) @ xs ! i # drop i (take i xs @ drop (Suc i) xs)"
    by (simp add: py_insert_def Let_def len del: length_append)
  also have "\<dots> = take i xs @ xs ! i # drop (Suc i) xs" using assms by simp
  also have "\<dots> = xs" using assms by (simp add: id_take_nth_drop [symmetric])
  finally show ?thesis .
qed

text \<open>
  A move or a deletion followed at once by undo gives back the view, the cursor, the
  undo stack and the disk layout; the catalogue gets the path back at its end, which
  is its old place only for the last entry.
\<close>

lemma removal_undo_restores_view:
  assumes wf: "wf_fs (fsys s)"
    and cur: "py_get (image_files s) (current_index s) = Inr img"
    and nonneg: "0 \<le> current_index s"
    and src: "lookup (fsys s) img = Some (File c d)"
    and free: "\<not> path_exists (fsys s) new"
    and dir: "is_dir (fsys s) (path_parent new)"
    and kind: "entry = Move \<or> entry = Delete"
  shows "image_files (undo_last_action (move_and_remove msg entry img new s)) = image_files s
       \<and> current_index (undo_last_action (move_and_remove msg entry img new s)) = current_index s
       \<and> undo_stack (undo_last_action (move_and_remove msg entry img new s)) = undo_stack s
       \<and> (\<forall>q. lookup (fsys (undo_last_action (move_and_remove msg entry img new s))) q
                = lookup (fsys s) q)
       \<and> all_image_files (undo_last_action (move_and_remove msg entry img new s)) =
           (if img \<in> set (remove1 img (all_image_files s)) then remove1 img (all_image_files s)
            else remove1 img (all_image_files s) @ [img])"
proof -
  let ?i = "current_index s"
  from py_get_norm [OF cur nonneg]
  have n: "nat ?i < length (image_files s)" and at: "image_files s ! nat ?i = img"
    by simp_all
  from free have nd: "\<not> is_dir (fsys s) new" by (simp add: path_exists_def is_dir_def)
  from rename_file_to_free_path [OF src dir free] obtain fs' where
    mv: "shutil_move (fsys s) img new = Inr fs'" and gone: "lookup fs' img = None"
    by blast
  from mv nd have ren: "os_rename (fsys s) img new = Inr fs'" by (simp add: shutil_move_def)
  from rename_file_back [OF src wf free ren] obtain fs'' where
    "os_rename fs' new img = Inr fs''" and same: "\<forall>q. lookup fs'' q = lookup (fsys s) q"
    by blast
  with gone have undone: "shutil_move fs' new img = Inr fs''"
    by (simp add: shutil_move_def is_dir_def)
  define s1 where "s1 = move_and_remove msg entry img new s"
  from move_and_remove_done [OF cur nonneg mv, of msg entry]
  have s1: "fsys s1 = fs'" "undo_stack s1 = undo_stack s @ [entry img new ?i]"
    "image_files s1 = take (nat ?i) (image_files s) @ drop (Suc (nat ?i)) (image_files s)"
    "all_image_files s1 = remove1 img (all_image_files s)"
    by (simp_all add: s1_def)
  have view: "py_insert (image_files s1) ?i img = image_files s"
    using py_insert_removed [OF n] at nonneg by (simp add: s1)
  have "undo_last_action s1 = undo_restore new img ?i (s1\<lparr>undo_stack := undo_stack s\<rparr>)"
    using kind by (auto simp: undo_last_action_def Let_def s1)
  then have u: "image_files (undo_last_action s1) = image_files s"
    "undo_stack (undo_last_action s1) = undo_stack s"
    "fsys (undo_last_action s1) = fs''"
    "current_index (undo_last_action s1) = max 0 (min ?i (int (length (image_files s)) - 1))"
    "all_image_files (undo_last_action s1) =
       (if img \<in> set (remove1 img (all_image_files s)) then remove1 img (all_image_files s)
        else remove1 img (all_image_files s) @ [img])"
    using undone view n
    by (auto simp: undo_restore_def s1 show_animated_overlay_def update_image_def)
  from n nonneg have "max 0 (min ?i (int (length (image_files s)) - 1)) = ?i" by linarith
  with u same show ?thesis unfolding s1_def by simp
qed

end
